theory Spec2Isabelle
  imports Main "HOL-Library.Multiset"
begin

section \<open>CollectionUtils: a model of \<^verbatim>\<open>src/utilities/collection-utils.ts\<close>\<close>

subsection \<open>Values, absent values and failure\<close>

text \<open>
  An argument of a CollectionUtils function is \<^verbatim>\<open>undefined\<close>, \<^verbatim>\<open>null\<close> or a value. The source
  tests absence with \<^verbatim>\<open>x == null\<close>, which holds for both \<^verbatim>\<open>undefined\<close> and \<^verbatim>\<open>null\<close>.
\<close>

datatype 'a nullable = Undefined | Null | Val 'a

text \<open>
  A collection is a plain JavaScript array or an \<^verbatim>\<open>Immutable.List\<close>; the constructor is what
  \<^verbatim>\<open>instanceof Immutable.List\<close> tests.
\<close>

datatype 'a collection = PlainArray "'a list" | ImmutableList "'a list"

text \<open>
  The only way the modelled functions can throw is a member access (\<^verbatim>\<open>x.length\<close>,
  \<^verbatim>\<open>x.some(...)\<close>, \<^verbatim>\<open>x.sort(...)\<close>) on \<^verbatim>\<open>undefined\<close> or \<^verbatim>\<open>null\<close>, which raises a
  \<^verbatim>\<open>TypeError\<close>. A result is \<open>Inl\<close> of the error or \<open>Inr\<close> of the returned value.
\<close>

datatype error = TypeError

definition and_then :: "error + 'a \<Rightarrow> ('a \<Rightarrow> error + 'b) \<Rightarrow> error + 'b" where
  "and_then r f = (case r of Inl e \<Rightarrow> Inl e | Inr v \<Rightarrow> f v)"

text \<open>\<^verbatim>\<open>x == null\<close>\<close>

fun is_nullish :: "'a nullable \<Rightarrow> bool" where
  "is_nullish Undefined = True"
| "is_nullish Null = True"
| "is_nullish (Val _) = False"

text \<open>The receiver of a member access: a \<^verbatim>\<open>TypeError\<close> when it is absent.\<close>

fun deref :: "'a nullable \<Rightarrow> error + 'a" where
  "deref Undefined = Inl TypeError"
| "deref Null = Inl TypeError"
| "deref (Val v) = Inr v"

text \<open>The elements of a collection, in order, whichever the representation.\<close>

fun elements :: "'a collection \<Rightarrow> 'a list" where
  "elements (PlainArray xs) = xs"
| "elements (ImmutableList xs) = xs"

subsection \<open>Built-ins of the platform used by the source\<close>

text \<open>
  \<^verbatim>\<open>xs.forEach(callback)\<close>, for a callback that updates one captured variable: the variable
  is threaded through the calls, left to right. A callback that throws ends the loop.
\<close>

fun forEach :: "('s \<Rightarrow> 'a \<Rightarrow> error + 's) \<Rightarrow> 'a list \<Rightarrow> 's \<Rightarrow> error + 's" where
  "forEach callback [] s = Inr s"
| "forEach callback (x # xs) s = and_then (callback s x) (forEach callback xs)"

text \<open>
  \<^verbatim>\<open>xs.some(predicate)\<close> of arrays and of \<^verbatim>\<open>Immutable.List\<close>: true at the first element the
  predicate holds for, without looking at the rest; false when there is none.
\<close>

fun some_list :: "('a \<Rightarrow> error + bool) \<Rightarrow> 'a list \<Rightarrow> error + bool" where
  "some_list predicate [] = Inr False"
| "some_list predicate (x # xs) =
     and_then (predicate x) (\<lambda>b. if b then Inr True else some_list predicate xs)"

definition some :: "'a collection nullable \<Rightarrow> ('a \<Rightarrow> error + bool) \<Rightarrow> error + bool" where
  "some receiver predicate = and_then (deref receiver) (\<lambda>c. some_list predicate (elements c))"

text \<open>\<^verbatim>\<open>!e\<close> and the short-circuit \<^verbatim>\<open>e1 || e2\<close> on results.\<close>

definition not_r :: "error + bool \<Rightarrow> error + bool" where
  "not_r r = and_then r (\<lambda>b. Inr (\<not> b))"

definition or_else :: "error + bool \<Rightarrow> error + bool \<Rightarrow> error + bool" where
  "or_else r1 r2 = and_then r1 (\<lambda>b. if b then Inr True else r2)"

subsection \<open>\<^verbatim>\<open>_length\<close>\<close>

text \<open>
  \<^verbatim>\<open>
  if (arr == null) { return -1; }
  if (arr instanceof Immutable.List) { return arr.size; }
  return arr.length;
  \<close>
\<close>

definition length_js :: "'a collection nullable \<Rightarrow> error + int" where
  "length_js arr =
     (if is_nullish arr then Inr (- 1)
      else and_then (deref arr) (\<lambda>c.
        case c of
          ImmutableList xs \<Rightarrow> Inr (int (size xs))
        | PlainArray xs \<Rightarrow> Inr (int (length xs))))"

subsection \<open>\<^verbatim>\<open>_isEmpty\<close>, \<^verbatim>\<open>_isNotEmpty\<close>, \<^verbatim>\<open>_hasValues\<close>\<close>

text \<open>
  The callback of the \<^verbatim>\<open>forEach\<close> in \<^verbatim>\<open>_isEmpty\<close>; its first argument is the captured
  variable \<^verbatim>\<open>isEmpty\<close>, which it returns updated.
\<close>

definition isEmpty_callback :: "bool \<Rightarrow> 'a collection nullable \<Rightarrow> error + bool" where
  "isEmpty_callback isEmpty collection =
     (if is_nullish collection then Inr isEmpty
      else and_then (deref collection) (\<lambda>c.
        case c of
          ImmutableList collectionList \<Rightarrow>
            Inr (if int (size collectionList) \<noteq> 0 then False else isEmpty)
        | PlainArray collectionArray \<Rightarrow>
            Inr (if int (length collectionArray) \<noteq> 0 then False else isEmpty)))"

text \<open>The rest parameter \<^verbatim>\<open>...collections\<close> is the list of the arguments of the call.\<close>

definition isEmpty :: "'a collection nullable list \<Rightarrow> error + bool" where
  "isEmpty collections = forEach isEmpty_callback collections True"

definition isNotEmpty :: "'a collection nullable list \<Rightarrow> error + bool" where
  "isNotEmpty collections = not_r (isEmpty collections)"

text \<open>
  The callback of the \<^verbatim>\<open>forEach\<close> in \<^verbatim>\<open>_hasValues\<close>, which calls \<^verbatim>\<open>_isEmpty\<close> with the one
  collection; its first argument is the captured variable \<^verbatim>\<open>hasValues\<close>.
\<close>

definition hasValues_callback :: "bool \<Rightarrow> 'a collection nullable \<Rightarrow> error + bool" where
  "hasValues_callback hasValues collection =
     and_then (not_r (isEmpty [collection])) (\<lambda>b. Inr (if b then True else hasValues))"

definition hasValues :: "'a collection nullable list \<Rightarrow> error + bool" where
  "hasValues collections = forEach hasValues_callback collections False"

subsection \<open>\<^verbatim>\<open>_equalsBy\<close>\<close>

text \<open>
  The selector is a function of the caller's, taken to be pure and total. Its values are
  compared with \<^verbatim>\<open>===\<close>, the first parameter of the model: equality on numbers other than
  \<^verbatim>\<open>NaN\<close>, on strings and on booleans, identity on objects.
\<close>

definition equalsBy ::
  "('v \<Rightarrow> 'v \<Rightarrow> bool) \<Rightarrow> ('a \<Rightarrow> 'v) \<Rightarrow> 'a collection nullable \<Rightarrow> 'a collection nullable
     \<Rightarrow> error + bool" where
  "equalsBy strictEquals selector array1 array2 =
     (if is_nullish array1 then Inr (is_nullish array2)
      else if is_nullish array2 then Inr False
      else and_then (length_js array1) (\<lambda>n1. and_then (length_js array2) (\<lambda>n2.
        if n1 \<noteq> n2 then Inr False
        else and_then
          (or_else
            (some array1 (\<lambda>s.
               not_r (some array2 (\<lambda>ss. Inr (strictEquals (selector s) (selector ss))))))
            (some array2 (\<lambda>s.
               not_r (some array1 (\<lambda>ss. Inr (strictEquals (selector s) (selector ss)))))))
          (\<lambda>hasDifferingValues. Inr (\<not> hasDifferingValues)))))"


subsection \<open>Arrays as objects: the store\<close>

text \<open>
  \<^verbatim>\<open>_removeElementAt\<close>, \<^verbatim>\<open>_replaceElementAt\<close> and \<^verbatim>\<open>_sortByString\<close> return either the array
  they were given or a new one, and \<^verbatim>\<open>sort\<close> and \<^verbatim>\<open>splice\<close> change an array in place. An
  array is therefore a reference into a store of array contents; a new array takes the next
  free reference.
\<close>

type_synonym ref = nat

type_synonym 'a heap = "'a list list"

definition new_array :: "'a heap \<Rightarrow> 'a list \<Rightarrow> 'a heap \<times> ref" where
  "new_array h xs = (h @ [xs], length h)"

text \<open>\<^verbatim>\<open>source.length\<close>\<close>

definition array_length :: "'a heap \<Rightarrow> ref nullable \<Rightarrow> error + int" where
  "array_length h source = and_then (deref source) (\<lambda>r. Inr (int (length (h ! r))))"

text \<open>
  What \<^verbatim>\<open>xs.splice(start, deleteCount)\<close> leaves in the array, as ECMAScript defines
  \<^verbatim>\<open>Array.prototype.splice\<close> for integer arguments and no items to insert: a negative start
  counts from the end, and both arguments are clamped to the array.
\<close>

definition splice :: "'a list \<Rightarrow> int \<Rightarrow> int \<Rightarrow> 'a list" where
  "splice xs start deleteCount =
     (let len = int (length xs);
          actualStart = (if start < 0 then max (len + start) 0 else min start len);
          actualDeleteCount = min (max deleteCount 0) (len - actualStart)
      in take (nat actualStart) xs @ drop (nat (actualStart + actualDeleteCount)) xs)"

text \<open>
  The elements of \<^verbatim>\<open>xs.slice(start, end)\<close>, as ECMAScript defines \<^verbatim>\<open>Array.prototype.slice\<close>
  for integer arguments; \<open>None\<close> is an omitted \<^verbatim>\<open>end\<close>.
\<close>

definition slice :: "'a list \<Rightarrow> int \<Rightarrow> int option \<Rightarrow> 'a list" where
  "slice xs start end =
     (let len = int (length xs);
          k = (if start < 0 then max (len + start) 0 else min start len);
          final = (case end of
                     None \<Rightarrow> len
                   | Some e \<Rightarrow> if e < 0 then max (len + e) 0 else min e len)
      in take (nat (final - k)) (drop (nat k) xs))"

text \<open>
  \<^verbatim>\<open>source.slice(start, end)\<close> on a reference. The array it builds is only spread into an
  array literal and then dropped, so the model keeps its elements and does not store it.
\<close>

definition slice_of :: "'a heap \<Rightarrow> ref nullable \<Rightarrow> int \<Rightarrow> int option \<Rightarrow> error + 'a list" where
  "slice_of h source start end = and_then (deref source) (\<lambda>r. Inr (slice (h ! r) start end))"

subsection \<open>\<^verbatim>\<open>_removeElementAt\<close>\<close>

text \<open>
  \<^verbatim>\<open>
  if (index < 0 || index > source.length) { return source; }
  const newArr = [...source];
  newArr.splice(index, 1);
  return newArr;
  \<close>
  The index is an integer. \<^verbatim>\<open>||\<close> reads \<^verbatim>\<open>source.length\<close> only when \<^verbatim>\<open>index < 0\<close> is false.
\<close>

definition removeElementAt ::
  "'a heap \<Rightarrow> ref nullable \<Rightarrow> int \<Rightarrow> error + ('a heap \<times> ref nullable)" where
  "removeElementAt h source index =
     and_then
       (or_else (Inr (index < 0))
          (and_then (array_length h source) (\<lambda>n. Inr (index > n))))
       (\<lambda>outside.
          if outside then Inr (h, source)
          else and_then (deref source) (\<lambda>r.
            let (h1, newArr) = new_array h (h ! r);
                h2 = h1[newArr := splice (h1 ! newArr) index 1]
            in Inr (h2, Val newArr)))"

subsection \<open>\<^verbatim>\<open>_replaceElementAt\<close>\<close>

text \<open>
  \<^verbatim>\<open>
  if (source.length === 0 || index < 0) { return source; }
  if (source.length === 1) { return [value]; }
  if (index === source.length - 1) { return [...source.slice(0, index), value]; }
  return [...source.slice(0, index), value, ...source.slice(index + 1)];
  \<close>
\<close>

definition replaceElementAt ::
  "'a heap \<Rightarrow> ref nullable \<Rightarrow> int \<Rightarrow> 'a \<Rightarrow> error + ('a heap \<times> ref nullable)" where
  "replaceElementAt h source index value =
     and_then
       (or_else (and_then (array_length h source) (\<lambda>n. Inr (n = 0))) (Inr (index < 0)))
       (\<lambda>unchanged.
          if unchanged then Inr (h, source)
          else and_then (array_length h source) (\<lambda>n1.
            if n1 = 1 then
              (let (h1, r1) = new_array h [value] in Inr (h1, Val r1))
            else and_then (array_length h source) (\<lambda>n2.
              if index = n2 - 1 then
                and_then (slice_of h source 0 (Some index)) (\<lambda>before.
                  let (h1, r1) = new_array h (before @ [value]) in Inr (h1, Val r1))
              else
                and_then (slice_of h source 0 (Some index)) (\<lambda>before.
                and_then (slice_of h source (index + 1) None) (\<lambda>after.
                  let (h1, r1) = new_array h (before @ [value] @ after)
                  in Inr (h1, Val r1))))))"

subsection \<open>\<^verbatim>\<open>_sortByString\<close>\<close>

text \<open>
  Strings are lists of code units below 256 (ASCII and Latin-1). \<^verbatim>\<open>toLowerCase\<close> maps the
  capital letters among them, \<^verbatim>\<open>A\<close> to \<^verbatim>\<open>Z\<close> and the accented capitals 192 to 214 and 216
  to 222, to the small letter 32 code units further on.
\<close>

definition toLowerCase_unit :: "char \<Rightarrow> char" where
  "toLowerCase_unit c =
     (let u = (of_char c :: nat)
      in if (65 \<le> u \<and> u \<le> 90) \<or> (192 \<le> u \<and> u \<le> 214) \<or> (216 \<le> u \<and> u \<le> 222)
         then char_of (u + 32) else c)"

definition toLowerCase :: "string \<Rightarrow> string" where
  "toLowerCase s = map toLowerCase_unit s"

text \<open>\<^verbatim>\<open>s?.toLowerCase()\<close>: \<^verbatim>\<open>undefined\<close> when the receiver is absent.\<close>

fun optional_toLowerCase :: "string nullable \<Rightarrow> string nullable" where
  "optional_toLowerCase (Val s) = Val (toLowerCase s)"
| "optional_toLowerCase _ = Undefined"

text \<open>
  \<^verbatim>\<open>a < b\<close> on two strings: at the first position where they differ the smaller code unit
  decides, and a proper prefix is smaller.
\<close>

fun less_string :: "string \<Rightarrow> string \<Rightarrow> bool" where
  "less_string [] [] = False"
| "less_string [] (y # ys) = True"
| "less_string (x # xs) [] = False"
| "less_string (x # xs) (y # ys) =
     (if x = y then less_string xs ys else (of_char x :: nat) < of_char y)"

text \<open>\<^verbatim>\<open>s === "" || s == null\<close>\<close>

definition empty_key :: "string nullable \<Rightarrow> bool" where
  "empty_key s = (s = Val [] \<or> is_nullish s)"

text \<open>
  The comparator that \<^verbatim>\<open>_sortByString\<close> passes to \<^verbatim>\<open>sort\<close>. The selector may return an
  absent value, which the source tests for. The last comparison is reached with two strings
  only.
\<close>

definition compareFn :: "('a \<Rightarrow> string nullable) \<Rightarrow> bool \<Rightarrow> 'a \<Rightarrow> 'a \<Rightarrow> int" where
  "compareFn selector caseSensitive a b =
     (let aString = (if \<not> caseSensitive then optional_toLowerCase (selector a) else selector a);
          bString = (if \<not> caseSensitive then optional_toLowerCase (selector b) else selector b)
      in if empty_key aString then 1
         else if empty_key bString then - 1
         else if aString = bString then 0
         else if (case (aString, bString) of
                    (Val x, Val y) \<Rightarrow> less_string x y
                  | _ \<Rightarrow> False) then - 1
         else 1)"

text \<open>
  \<^verbatim>\<open>xs.sort(comparefn)\<close> compares two elements as ECMAScript's \<^verbatim>\<open>CompareArrayElements\<close> says:
  an \<^verbatim>\<open>undefined\<close> element is never handed to the comparator and compares after every other
  element. The elements of the sorted array are therefore \<open>'a nullable\<close> values.
\<close>

definition compareArrayElements ::
  "('a nullable \<Rightarrow> 'a nullable \<Rightarrow> int) \<Rightarrow> 'a nullable \<Rightarrow> 'a nullable \<Rightarrow> int" where
  "compareArrayElements comparefn x y =
     (if x = Undefined \<and> y = Undefined then 0
      else if x = Undefined then 1
      else if y = Undefined then - 1
      else comparefn x y)"

text \<open>
  ECMAScript leaves the sorting algorithm to the engine and fixes the result only for a
  consistent comparator; the comparator above is not one on an element with an empty key,
  which it orders after itself. What follows is therefore an assumption about the engine:
  the sort is taken to be a stable insertion sort, in which the elements are taken from left
  to right and each goes into the sorted part before the first element it is smaller than, so
  after the elements it is equal to.
\<close>

fun insert_pivot :: "('a \<Rightarrow> 'a \<Rightarrow> int) \<Rightarrow> 'a \<Rightarrow> 'a list \<Rightarrow> 'a list" where
  "insert_pivot compare pivot [] = [pivot]"
| "insert_pivot compare pivot (y # ys) =
     (if compare pivot y < 0 then pivot # y # ys
      else y # insert_pivot compare pivot ys)"

definition array_sort ::
  "('a nullable \<Rightarrow> 'a nullable \<Rightarrow> int) \<Rightarrow> 'a nullable list \<Rightarrow> 'a nullable list" where
  "array_sort comparefn xs =
     foldl (\<lambda>sorted pivot. insert_pivot (compareArrayElements comparefn) pivot sorted) [] xs"

text \<open>
  \<^verbatim>\<open>caseSensitive: boolean = false\<close>: \<open>None\<close> is the omitted argument. \<^verbatim>\<open>sort\<close> orders the
  array in place and returns it. The selector is the caller's and is taken to be pure and
  total on the elements it is applied to.
\<close>

definition sortByString ::
  "'a nullable heap \<Rightarrow> ref nullable \<Rightarrow> ('a nullable \<Rightarrow> string nullable) \<Rightarrow> bool option
     \<Rightarrow> error + ('a nullable heap \<times> ref nullable)" where
  "sortByString h array selector caseSensitive =
     (let cs = (case caseSensitive of None \<Rightarrow> False | Some b \<Rightarrow> b)
      in and_then (deref array) (\<lambda>r.
           Inr (h[r := array_sort (compareFn selector cs) (h ! r)], array)))"

text \<open>
  The order of the sorted array. The string a key is compared as: itself, or lowercased
  when case is not to count.
\<close>

definition key_as_compared :: "bool \<Rightarrow> string \<Rightarrow> string" where
  "key_as_compared caseSensitive s = (if caseSensitive then s else toLowerCase s)"

definition key_of :: "('a \<Rightarrow> string nullable) \<Rightarrow> bool \<Rightarrow> 'a \<Rightarrow> string" where
  "key_of selector caseSensitive x =
     (case selector x of Val s \<Rightarrow> key_as_compared caseSensitive s | _ \<Rightarrow> [])"

text \<open>
  Elements fall into three classes: 0 for an element with a key, 1 for an element with an
  empty or absent key, 2 for \<^verbatim>\<open>undefined\<close>. \<open>x\<close> is not after \<open>y\<close> when its class is lower, or
  the classes are the same and, for two elements with keys, the key of \<open>y\<close> is not smaller.
\<close>

definition sort_class :: "('a nullable \<Rightarrow> string nullable) \<Rightarrow> 'a nullable \<Rightarrow> nat" where
  "sort_class selector x =
     (if x = Undefined then 2 else if empty_key (selector x) then 1 else 0)"

definition not_after ::
  "('a nullable \<Rightarrow> string nullable) \<Rightarrow> bool \<Rightarrow> 'a nullable \<Rightarrow> 'a nullable \<Rightarrow> bool" where
  "not_after selector caseSensitive x y =
     (sort_class selector x < sort_class selector y
      \<or> (sort_class selector x = sort_class selector y
          \<and> (sort_class selector x = 0 \<longrightarrow>
                \<not> less_string (key_of selector caseSensitive y) (key_of selector caseSensitive x))))"

text \<open>
  Two selectors for the examples: \<^verbatim>\<open>x => x?.n\<close> on objects \<^verbatim>\<open>{n: ...}\<close>, which are modelled as
  pairs of the field and a tag, and \<^verbatim>\<open>x => x ?? "unknown"\<close> on strings.
\<close>

fun field_n :: "(string \<times> nat) nullable \<Rightarrow> string nullable" where
  "field_n (Val x) = Val (fst x)"
| "field_n _ = Undefined"

definition or_unknown :: "string nullable \<Rightarrow> string nullable" where
  "or_unknown x = (if is_nullish x then Val ''unknown'' else x)"

section \<open>Properties\<close>

subsection \<open>Results that do not fail\<close>

lemma and_then_Inr [simp]: "and_then (Inr v) f = f v"
  by (simp add: and_then_def)

lemma and_then_Inl [simp]: "and_then (Inl e) f = Inl e"
  by (simp add: and_then_def)

lemma not_r_Inr [simp]: "not_r (Inr b) = Inr (\<not> b)"
  by (simp add: not_r_def)

lemma or_else_Inr [simp]: "or_else (Inr a) (Inr b) = Inr (a \<or> b)"
  by (simp add: or_else_def)

lemma some_list_total: "some_list (\<lambda>x. Inr (P x)) xs = Inr (\<exists>x\<in>set xs. P x)"
  by (induction xs) auto

lemma some_Val: "some (Val c) (\<lambda>x. Inr (P x)) = Inr (\<exists>x\<in>set (elements c). P x)"
  by (simp add: some_def some_list_total)

lemma length_js_Val: "length_js (Val c) = Inr (int (length (elements c)))"
  by (cases c) (simp_all add: length_js_def)

lemma length_js_nullish: "is_nullish a \<Longrightarrow> length_js a = Inr (- 1)"
  by (simp add: length_js_def)

lemma nullish_or_Val: "is_nullish a \<or> (\<exists>c. a = Val c)"
  by (cases a) simp_all

subsection \<open>Length\<close>

text \<open>
  C5. An absent input, \<^verbatim>\<open>undefined\<close> or \<^verbatim>\<open>null\<close>, has length \<open>-1\<close>; an \<^verbatim>\<open>Immutable.List\<close> has
  its size and a plain array its element count. In every case \<^verbatim>\<open>length\<close> returns and does
  not throw.
\<close>

theorem length_js_cases:
  "(is_nullish seq \<longrightarrow> length_js seq = Inr (- 1))
   \<and> (\<forall>xs. seq = Val (ImmutableList xs) \<longrightarrow> length_js seq = Inr (int (length xs)))
   \<and> (\<forall>xs. seq = Val (PlainArray xs) \<longrightarrow> length_js seq = Inr (int (length xs)))
   \<and> (\<exists>n. length_js seq = Inr n)"
proof (cases seq)
  case (Val c)
  then show ?thesis
    by (cases c) (simp_all add: length_js_def)
qed (simp_all add: length_js_def)

theorem length_js_cases_witness:
  "length_js (Undefined :: nat collection nullable) = Inr (- 1)
   \<and> length_js (Null :: nat collection nullable) = Inr (- 1)
   \<and> length_js (Val (ImmutableList [4, 5, 6 :: nat])) = Inr 3
   \<and> length_js (Val (PlainArray [7, 8 :: nat])) = Inr 2"
  using length_js_cases [of "Undefined :: nat collection nullable"]
    length_js_cases [of "Null :: nat collection nullable"]
    length_js_cases [of "Val (ImmutableList [4, 5, 6 :: nat])"]
    length_js_cases [of "Val (PlainArray [7, 8 :: nat])"]
  by simp

subsection \<open>Emptiness\<close>

lemma isEmpty_callback_eq:
  "isEmpty_callback b c = Inr (b \<and> (is_nullish c \<or> (\<exists>k. c = Val k \<and> elements k = [])))"
proof (cases c)
  case (Val k)
  then show ?thesis
    by (cases k) (simp_all add: isEmpty_callback_def)
qed (simp_all add: isEmpty_callback_def)

lemma forEach_isEmpty_callback:
  "forEach isEmpty_callback cs b =
     Inr (b \<and> (\<forall>c\<in>set cs. is_nullish c \<or> (\<exists>k. c = Val k \<and> elements k = [])))"
  by (induction cs arbitrary: b) (auto simp add: isEmpty_callback_eq)

lemma isEmpty_eq:
  "isEmpty cs = Inr (\<forall>c\<in>set cs. is_nullish c \<or> (\<exists>k. c = Val k \<and> elements k = []))"
  by (simp add: isEmpty_def forEach_isEmpty_callback)

lemma hasValues_callback_eq:
  "hasValues_callback b c = Inr (b \<or> \<not> (is_nullish c \<or> (\<exists>k. c = Val k \<and> elements k = [])))"
  by (auto simp add: hasValues_callback_def isEmpty_eq)

lemma forEach_hasValues_callback:
  "forEach hasValues_callback cs b =
     Inr (b \<or> \<not> (\<forall>c\<in>set cs. is_nullish c \<or> (\<exists>k. c = Val k \<and> elements k = [])))"
  by (induction cs arbitrary: b) (auto simp add: hasValues_callback_eq)

lemma hasValues_eq:
  "hasValues cs = Inr (\<not> (\<forall>c\<in>set cs. is_nullish c \<or> (\<exists>k. c = Val k \<and> elements k = [])))"
  by (simp add: hasValues_def forEach_hasValues_callback)

text \<open>
  C3. For any list of arguments, each absent, a plain array or an \<^verbatim>\<open>Immutable.List\<close>,
  \<^verbatim>\<open>isEmpty\<close> returns true exactly when every argument is absent or has no elements. With no
  argument and with the one empty array it returns true, and it returns false as soon as one
  argument, of either representation, has an element.
\<close>

theorem isEmpty_iff_all_empty:
  "isEmpty (collections :: 'a collection nullable list) =
     Inr (\<forall>c\<in>set collections. is_nullish c \<or> (\<exists>k. c = Val k \<and> elements k = []))
   \<and> isEmpty ([] :: 'a collection nullable list) = Inr True
   \<and> isEmpty [Val (PlainArray ([] :: 'a list))] = Inr True
   \<and> ((\<exists>c\<in>set collections. \<exists>k. c = Val k \<and> elements k \<noteq> []) \<longrightarrow>
        isEmpty collections = Inr False)"
proof -
  have "isEmpty collections = Inr False"
    if "c \<in> set collections" and "c = Val k" and "elements k \<noteq> []" for c k
  proof -
    from that have "\<not> (is_nullish c \<or> (\<exists>k. c = Val k \<and> elements k = []))"
      by simp
    with that(1) show ?thesis
      unfolding isEmpty_eq by blast
  qed
  then have "(\<exists>c\<in>set collections. \<exists>k. c = Val k \<and> elements k \<noteq> []) \<longrightarrow>
        isEmpty collections = Inr False"
    by blast
  then show ?thesis
    by (simp add: isEmpty_eq)
qed

theorem isEmpty_iff_all_empty_witness:
  "isEmpty [Undefined, Val (PlainArray []), Null, Val (ImmutableList ([] :: nat list))] = Inr True
   \<and> isEmpty [Val (PlainArray []), Val (ImmutableList [1 :: nat])] = Inr False
   \<and> isEmpty [Val (ImmutableList []), Undefined, Val (PlainArray [1 :: nat])] = Inr False"
  using isEmpty_iff_all_empty
      [of "[Undefined, Val (PlainArray []), Null, Val (ImmutableList ([] :: nat list))]"]
    isEmpty_iff_all_empty [of "[Val (PlainArray []), Val (ImmutableList [1 :: nat])]"]
    isEmpty_iff_all_empty [of "[Val (ImmutableList []), Undefined, Val (PlainArray [1 :: nat])]"]
  by simp

text \<open>
  C4. For any list of arguments \<^verbatim>\<open>isEmpty\<close> returns a boolean, \<^verbatim>\<open>isNotEmpty\<close> returns its
  negation, and \<^verbatim>\<open>hasValues\<close>, which has a loop of its own, returns what \<^verbatim>\<open>isNotEmpty\<close>
  returns.
\<close>

theorem isNotEmpty_hasValues_agree:
  "\<exists>b. isEmpty collections = Inr b
     \<and> isNotEmpty collections = Inr (\<not> b)
     \<and> hasValues collections = isNotEmpty collections"
  by (simp add: isNotEmpty_def hasValues_eq isEmpty_eq)

theorem isNotEmpty_hasValues_agree_witness:
  "(\<exists>b. isEmpty [Val (PlainArray [1 :: nat]), Undefined] = Inr b
      \<and> isNotEmpty [Val (PlainArray [1 :: nat]), Undefined] = Inr (\<not> b)
      \<and> hasValues [Val (PlainArray [1 :: nat]), Undefined]
          = isNotEmpty [Val (PlainArray [1 :: nat]), Undefined])"
  using isNotEmpty_hasValues_agree [of "[Val (PlainArray [1 :: nat]), Undefined]"]
  by simp

subsection \<open>Equality by a selector\<close>

lemma equalsBy_Val:
  "equalsBy eq sel (Val c1) (Val c2) =
     Inr (length (elements c1) = length (elements c2)
          \<and> (\<forall>x\<in>set (elements c1). \<exists>y\<in>set (elements c2). eq (sel x) (sel y))
          \<and> (\<forall>y\<in>set (elements c2). \<exists>x\<in>set (elements c1). eq (sel y) (sel x)))"
  by (auto simp add: equalsBy_def length_js_Val some_Val)

lemma equalsBy_absent_left: "is_nullish a \<Longrightarrow> equalsBy eq sel a b = Inr (is_nullish b)"
  by (simp add: equalsBy_def)

lemma equalsBy_absent_right: "\<not> is_nullish a \<Longrightarrow> is_nullish b \<Longrightarrow> equalsBy eq sel a b = Inr False"
  by (simp add: equalsBy_def)

lemma equalsBy_lengths_differ:
  assumes "length_js a \<noteq> length_js b"
  shows "equalsBy eq sel a b = Inr False"
proof -
  consider "is_nullish a" "is_nullish b" | "is_nullish a" "\<not> is_nullish b"
    | "\<not> is_nullish a" "is_nullish b" | c1 c2 where "a = Val c1" "b = Val c2"
    using nullish_or_Val [of a] nullish_or_Val [of b] by auto
  then show ?thesis
  proof cases
    case 1
    with assms show ?thesis
      by (simp add: length_js_nullish)
  next
    case 2
    then show ?thesis
      by (simp add: equalsBy_absent_left)
  next
    case 3
    then show ?thesis
      by (simp add: equalsBy_absent_right)
  next
    case 4
    with assms show ?thesis
      by (simp add: equalsBy_Val length_js_Val)
  qed
qed

text \<open>
  C1. For every selector and every two inputs, \<^verbatim>\<open>equalsBy\<close> returns: when the first is
  absent, whether the second is absent; false when only the second is absent; false when the
  two lengths, as \<^verbatim>\<open>length\<close> computes them, differ; and otherwise whether every element of
  the first has an element of the second with a \<^verbatim>\<open>===\<close> selected value and every element
  of the second has such an element of the first.
\<close>

theorem equalsBy_case_analysis:
  "(is_nullish seqA \<longrightarrow> equalsBy eq selector seqA seqB = Inr (is_nullish seqB))
   \<and> (\<not> is_nullish seqA \<and> is_nullish seqB \<longrightarrow> equalsBy eq selector seqA seqB = Inr False)
   \<and> (length_js seqA \<noteq> length_js seqB \<longrightarrow> equalsBy eq selector seqA seqB = Inr False)
   \<and> (\<forall>a b. seqA = Val a \<and> seqB = Val b \<and> length_js seqA = length_js seqB \<longrightarrow>
         equalsBy eq selector seqA seqB =
           Inr ((\<forall>x\<in>set (elements a). \<exists>y\<in>set (elements b). eq (selector x) (selector y))
                \<and> (\<forall>y\<in>set (elements b). \<exists>x\<in>set (elements a). eq (selector y) (selector x))))"
proof (intro conjI allI impI)
  show "equalsBy eq selector seqA seqB = Inr (is_nullish seqB)" if "is_nullish seqA"
    using that by (rule equalsBy_absent_left)
  show "equalsBy eq selector seqA seqB = Inr False" if "\<not> is_nullish seqA \<and> is_nullish seqB"
    using that by (simp add: equalsBy_absent_right)
  show "equalsBy eq selector seqA seqB = Inr False" if "length_js seqA \<noteq> length_js seqB"
    using that by (rule equalsBy_lengths_differ)
  show "equalsBy eq selector seqA seqB =
      Inr ((\<forall>x\<in>set (elements a). \<exists>y\<in>set (elements b). eq (selector x) (selector y))
           \<and> (\<forall>y\<in>set (elements b). \<exists>x\<in>set (elements a). eq (selector y) (selector x)))"
    if "seqA = Val a \<and> seqB = Val b \<and> length_js seqA = length_js seqB" for a b
    using that by (auto simp add: equalsBy_Val length_js_Val)
qed

theorem equalsBy_case_analysis_witness:
  "equalsBy (=) fst (Undefined :: (nat \<times> string) collection nullable) Null = Inr True
   \<and> equalsBy (=) fst Null (Val (PlainArray [(1 :: nat, ''a'')])) = Inr False
   \<and> equalsBy (=) fst (Val (PlainArray [(1 :: nat, ''a'')])) Undefined = Inr False
   \<and> equalsBy (=) fst (Val (PlainArray [(1 :: nat, ''a'')])) (Val (PlainArray [])) = Inr False
   \<and> equalsBy (=) fst (Val (PlainArray [(1 :: nat, ''a''), (2, ''b'')]))
        (Val (ImmutableList [(2, ''c''), (1, ''d'')])) = Inr True
   \<and> equalsBy (=) fst (Val (PlainArray [(1 :: nat, ''a''), (2, ''b'')]))
        (Val (ImmutableList [(2, ''c''), (3, ''d'')])) = Inr False"
  using
    equalsBy_case_analysis [of "Undefined :: (nat \<times> string) collection nullable" "(=)" fst Null]
    equalsBy_case_analysis [of Null "(=)" fst "Val (PlainArray [(1 :: nat, ''a'')])"]
    equalsBy_case_analysis [of "Val (PlainArray [(1 :: nat, ''a'')])" "(=)" fst Undefined]
    equalsBy_case_analysis [of "Val (PlainArray [(1 :: nat, ''a'')])" "(=)" fst
      "Val (PlainArray [])"]
    equalsBy_case_analysis [of "Val (PlainArray [(1 :: nat, ''a''), (2, ''b'')])" "(=)" fst
      "Val (ImmutableList [(2, ''c''), (1, ''d'')])"]
    equalsBy_case_analysis [of "Val (PlainArray [(1 :: nat, ''a''), (2, ''b'')])" "(=)" fst
      "Val (ImmutableList [(2, ''c''), (3, ''d'')])"]
  by (simp add: length_js_Val)





subsection \<open>Removing and replacing by index\<close>

lemma array_length_Val: "array_length h (Val r) = Inr (int (length (h ! r)))"
  by (simp add: array_length_def)

lemma slice_of_Val: "slice_of h (Val r) start end = Inr (slice (h ! r) start end)"
  by (simp add: slice_of_def)

lemma splice_one:
  "0 \<le> i \<Longrightarrow> i \<le> int (length xs) \<Longrightarrow> splice xs i 1 = take (nat i) xs @ drop (nat i + 1) xs"
  by (auto simp add: splice_def Let_def min_def max_def nat_add_distrib)

lemma slice_before: "0 \<le> i \<Longrightarrow> slice xs 0 (Some i) = take (nat i) xs"
  by (auto simp add: slice_def Let_def min_def max_def)

lemma slice_after: "0 \<le> i \<Longrightarrow> slice xs (i + 1) None = drop (nat i + 1) xs"
  by (auto simp add: slice_def Let_def min_def max_def nat_add_distrib)

lemma removeElementAt_outside:
  "index < 0 \<or> index > int (length (h ! r)) \<Longrightarrow>
   removeElementAt h (Val r) index = Inr (h, Val r)"
  by (auto simp add: removeElementAt_def array_length_Val)

lemma removeElementAt_inside:
  "0 \<le> index \<Longrightarrow> index \<le> int (length (h ! r)) \<Longrightarrow>
   removeElementAt h (Val r) index =
     Inr (h @ [take (nat index) (h ! r) @ drop (nat index + 1) (h ! r)], Val (length h))"
  by (simp add: removeElementAt_def array_length_Val new_array_def splice_one)

text \<open>
  C6. Let \<open>r\<close> be an array of the store and \<open>index\<close> an integer. When \<open>index\<close> is negative
  or greater than the length, \<^verbatim>\<open>removeElementAt\<close> returns the reference \<open>r\<close> itself. When
  \<open>index\<close> is the length, the result has exactly the elements of the source. When \<open>index\<close>
  is a position of the source, the result is a new array: the source without the element at
  \<open>index\<close>. No array of the store is changed by the call.
\<close>

theorem removeElementAt_spec:
  assumes "r < length h"
  shows "\<exists>h' r'. removeElementAt h (Val r) index = Inr (h', Val r')
     \<and> (index < 0 \<or> index > int (length (h ! r)) \<longrightarrow> h' = h \<and> r' = r)
     \<and> (index = int (length (h ! r)) \<longrightarrow> h' ! r' = h ! r)
     \<and> (0 \<le> index \<and> index < int (length (h ! r)) \<longrightarrow>
          r' = length h \<and> r' \<noteq> r
          \<and> h' ! r' = take (nat index) (h ! r) @ drop (nat index + 1) (h ! r))
     \<and> (\<forall>q < length h. h' ! q = h ! q)"
proof (cases "index < 0 \<or> index > int (length (h ! r))")
  case True
  then show ?thesis
    by (auto simp add: removeElementAt_outside)
next
  case False
  then have "0 \<le> index" and "index \<le> int (length (h ! r))"
    by auto
  then show ?thesis
    using assms by (auto simp add: removeElementAt_inside nth_append)
qed

theorem removeElementAt_spec_witness:
  "(\<exists>h' r'. removeElementAt [[1, 2, 3 :: int]] (Val 0) 1 = Inr (h', Val r')
      \<and> r' \<noteq> 0 \<and> h' ! r' = [1, 3] \<and> h' ! 0 = [1, 2, 3])
   \<and> (\<exists>h' r'. removeElementAt [[1, 2, 3 :: int]] (Val 0) 3 = Inr (h', Val r')
      \<and> h' ! r' = [1, 2, 3] \<and> h' ! 0 = [1, 2, 3])
   \<and> removeElementAt [[1, 2, 3 :: int]] (Val 0) (- 1) = Inr ([[1, 2, 3]], Val 0)
   \<and> removeElementAt [[1, 2, 3 :: int]] (Val 0) 4 = Inr ([[1, 2, 3]], Val 0)"
  using removeElementAt_spec [of 0 "[[1, 2, 3 :: int]]" 1]
    removeElementAt_spec [of 0 "[[1, 2, 3 :: int]]" 3]
    removeElementAt_spec [of 0 "[[1, 2, 3 :: int]]" "- 1"]
    removeElementAt_spec [of 0 "[[1, 2, 3 :: int]]" 4]
  by auto

lemma replaceElementAt_unchanged:
  "length (h ! r) = 0 \<or> index < 0 \<Longrightarrow> replaceElementAt h (Val r) index v = Inr (h, Val r)"
  by (auto simp add: replaceElementAt_def array_length_Val)

lemma replaceElementAt_single:
  "length (h ! r) = 1 \<Longrightarrow> 0 \<le> index \<Longrightarrow>
   replaceElementAt h (Val r) index v = Inr (h @ [[v]], Val (length h))"
  by (simp add: replaceElementAt_def array_length_Val new_array_def)

lemma replaceElementAt_last:
  "2 \<le> length (h ! r) \<Longrightarrow> index = int (length (h ! r)) - 1 \<Longrightarrow>
   replaceElementAt h (Val r) index v =
     Inr (h @ [take (nat index) (h ! r) @ [v]], Val (length h))"
  by (auto simp add: replaceElementAt_def array_length_Val slice_of_Val new_array_def slice_before)

lemma replaceElementAt_other:
  "2 \<le> length (h ! r) \<Longrightarrow> 0 \<le> index \<Longrightarrow> index \<noteq> int (length (h ! r)) - 1 \<Longrightarrow>
   replaceElementAt h (Val r) index v =
     Inr (h @ [take (nat index) (h ! r) @ [v] @ drop (nat index + 1) (h ! r)], Val (length h))"
  by (auto simp add: replaceElementAt_def array_length_Val slice_of_Val new_array_def slice_before
      slice_after)

text \<open>
  C7. Let \<open>r\<close> be an array of the store and \<open>index\<close> an integer. \<^verbatim>\<open>replaceElementAt\<close> returns
  the reference \<open>r\<close> itself when the source is empty or \<open>index\<close> is negative; a new array
  holding only \<open>value\<close> when the source has one element and \<open>index\<close> is not negative,
  whatever \<open>index\<close> is; a new array of the elements before \<open>index\<close> and then \<open>value\<close> when
  \<open>index\<close> is the last position; and otherwise a new array of the elements before \<open>index\<close>,
  then \<open>value\<close>, then the elements after \<open>index\<close>. No array of the store is changed by the
  call.
\<close>

theorem replaceElementAt_spec:
  assumes "r < length h"
  shows "\<exists>h' r'. replaceElementAt h (Val r) index value = Inr (h', Val r')
     \<and> (length (h ! r) = 0 \<or> index < 0 \<longrightarrow> h' = h \<and> r' = r)
     \<and> (length (h ! r) = 1 \<and> 0 \<le> index \<longrightarrow> r' = length h \<and> h' ! r' = [value])
     \<and> (1 \<le> length (h ! r) \<and> index = int (length (h ! r)) - 1 \<longrightarrow>
          r' = length h \<and> h' ! r' = take (nat index) (h ! r) @ [value])
     \<and> (2 \<le> length (h ! r) \<and> 0 \<le> index \<and> index \<noteq> int (length (h ! r)) - 1 \<longrightarrow>
          r' = length h
          \<and> h' ! r' = take (nat index) (h ! r) @ [value] @ drop (nat index + 1) (h ! r))
     \<and> (\<forall>q < length h. h' ! q = h ! q)"
proof -
  consider "length (h ! r) = 0 \<or> index < 0"
    | "length (h ! r) = 1" "0 \<le> index"
    | "2 \<le> length (h ! r)" "index = int (length (h ! r)) - 1"
    | "2 \<le> length (h ! r)" "0 \<le> index" "index \<noteq> int (length (h ! r)) - 1"
    by linarith
  then show ?thesis
  proof cases
    case 1
    then show ?thesis
      by (auto simp add: replaceElementAt_unchanged)
  next
    case 2
    then show ?thesis
      by (auto simp add: replaceElementAt_single nth_append)
  next
    case 3
    then show ?thesis
      by (auto simp add: replaceElementAt_last nth_append)
  next
    case 4
    then show ?thesis
      by (auto simp add: replaceElementAt_other nth_append)
  qed
qed

theorem replaceElementAt_spec_witness:
  "replaceElementAt [[]] (Val 0) 0 (9 :: int) = Inr ([[]], Val 0)
   \<and> replaceElementAt [[1, 2, 3]] (Val 0) (- 1) (9 :: int) = Inr ([[1, 2, 3]], Val 0)
   \<and> (\<exists>h' r'. replaceElementAt [[1]] (Val 0) 0 (9 :: int) = Inr (h', Val r')
        \<and> r' \<noteq> 0 \<and> h' ! r' = [9] \<and> h' ! 0 = [1])
   \<and> (\<exists>h' r'. replaceElementAt [[1]] (Val 0) 5 (9 :: int) = Inr (h', Val r')
        \<and> r' \<noteq> 0 \<and> h' ! r' = [9] \<and> h' ! 0 = [1])
   \<and> (\<exists>h' r'. replaceElementAt [[1, 2, 3]] (Val 0) 2 (9 :: int) = Inr (h', Val r')
        \<and> r' \<noteq> 0 \<and> h' ! r' = [1, 2, 9] \<and> h' ! 0 = [1, 2, 3])
   \<and> (\<exists>h' r'. replaceElementAt [[1, 2, 3]] (Val 0) 1 (9 :: int) = Inr (h', Val r')
        \<and> r' \<noteq> 0 \<and> h' ! r' = [1, 9, 3] \<and> h' ! 0 = [1, 2, 3])"
  using replaceElementAt_spec [of 0 "[[]]" 0 "9 :: int"]
    replaceElementAt_spec [of 0 "[[1, 2, 3]]" "- 1" "9 :: int"]
    replaceElementAt_spec [of 0 "[[1]]" 0 "9 :: int"]
    replaceElementAt_spec [of 0 "[[1]]" 5 "9 :: int"]
    replaceElementAt_spec [of 0 "[[1, 2, 3]]" 2 "9 :: int"]
    replaceElementAt_spec [of 0 "[[1, 2, 3]]" 1 "9 :: int"]
  by auto

text \<open>
  C10. When the source has at least two elements and \<open>index\<close> is at least its length,
  \<^verbatim>\<open>replaceElementAt\<close> returns a new array: the source with \<open>value\<close> added at the end, one
  element longer. The source keeps its elements, and each of them is at its position in the
  result.
\<close>

theorem replaceElementAt_beyond_end_appends:
  assumes "r < length h" and "2 \<le> length (h ! r)" and "int (length (h ! r)) \<le> index"
  shows "\<exists>h' r'. replaceElementAt h (Val r) index value = Inr (h', Val r')
     \<and> r' \<noteq> r
     \<and> h' ! r' = h ! r @ [value]
     \<and> length (h' ! r') = length (h ! r) + 1
     \<and> (\<forall>i < length (h ! r). h' ! r' ! i = h ! r ! i)
     \<and> h' ! r = h ! r"
proof -
  from assms have "0 \<le> index" and "index \<noteq> int (length (h ! r)) - 1"
    by linarith+
  with assms(2) have "replaceElementAt h (Val r) index value =
      Inr (h @ [take (nat index) (h ! r) @ [value] @ drop (nat index + 1) (h ! r)], Val (length h))"
    by (rule replaceElementAt_other)
  moreover from assms(3) have "take (nat index) (h ! r) = h ! r"
    and "drop (nat index + 1) (h ! r) = []"
    by simp_all
  ultimately show ?thesis
    using assms(1) by (auto simp add: nth_append)
qed

theorem replaceElementAt_beyond_end_appends_witness:
  "(\<exists>h' r'. replaceElementAt [[1, 2]] (Val 0) 2 (9 :: int) = Inr (h', Val r')
      \<and> r' \<noteq> 0 \<and> h' ! r' = [1, 2, 9] \<and> h' ! 0 = [1, 2])
   \<and> (\<exists>h' r'. replaceElementAt [[1, 2, 3]] (Val 0) 7 (9 :: int) = Inr (h', Val r')
      \<and> r' \<noteq> 0 \<and> h' ! r' = [1, 2, 3, 9] \<and> h' ! 0 = [1, 2, 3])"
  using replaceElementAt_beyond_end_appends [of 0 "[[1, 2]]" 2 "9 :: int"]
    replaceElementAt_beyond_end_appends [of 0 "[[1, 2, 3]]" 7 "9 :: int"]
  by auto

subsection \<open>Sorting by a string key\<close>

lemma toLowerCase_Nil_iff: "toLowerCase s = [] \<longleftrightarrow> s = []"
  by (simp add: toLowerCase_def)

lemma empty_key_optional_toLowerCase: "empty_key (optional_toLowerCase k) = empty_key k"
  by (cases k) (simp_all add: empty_key_def toLowerCase_Nil_iff)

lemma compareFn_empty_left: "empty_key (sel a) \<Longrightarrow> compareFn sel cs a b = 1"
  by (simp add: compareFn_def empty_key_optional_toLowerCase)

lemma compareFn_empty_right:
  "\<not> empty_key (sel a) \<Longrightarrow> empty_key (sel b) \<Longrightarrow> compareFn sel cs a b = - 1"
  by (simp add: compareFn_def empty_key_optional_toLowerCase)

lemma keyed_cases:
  assumes "\<not> empty_key k"
  obtains s where "k = Val s" and "s \<noteq> []"
  using assms by (cases k) (simp_all add: empty_key_def)

lemma compareFn_keys:
  assumes "sel a = Val ka" and "sel b = Val kb" and "ka \<noteq> []" and "kb \<noteq> []"
  shows "compareFn sel cs a b =
     (if key_as_compared cs ka = key_as_compared cs kb then 0
      else if less_string (key_as_compared cs ka) (key_as_compared cs kb) then - 1 else 1)"
  using assms
  by (simp add: compareFn_def key_as_compared_def empty_key_def toLowerCase_Nil_iff)

text \<open>\<^verbatim>\<open><\<close> on strings is a strict linear order.\<close>

lemma less_string_irrefl: "\<not> less_string s s"
  by (induction s) simp_all

lemma less_string_trans: "less_string a b \<Longrightarrow> less_string b c \<Longrightarrow> less_string a c"
proof (induction a b arbitrary: c rule: less_string.induct)
  case (2 y ys)
  then show ?case by (cases c) simp_all
next
  case (4 x xs y ys)
  then show ?case
    by (cases c) (auto split: if_splits)
qed simp_all

lemma code_units_differ:
  "x \<noteq> y \<Longrightarrow> (of_char x :: nat) < of_char y \<or> (of_char y :: nat) < of_char x"
  by (simp add: neq_iff [symmetric])

lemma less_string_total: "a \<noteq> b \<Longrightarrow> less_string a b \<or> less_string b a"
proof (induction a b rule: less_string.induct)
  case (4 x xs y ys)
  then show ?case
    using code_units_differ [of x y] by (cases "x = y") auto
qed simp_all

lemma less_string_asym: "less_string a b \<Longrightarrow> \<not> less_string b a"
  using less_string_trans [of a b a] less_string_irrefl [of a] by blast

lemma not_less_string_trans:
  assumes "\<not> less_string b a" and "\<not> less_string c b"
  shows "\<not> less_string c a"
proof
  assume "less_string c a"
  show False
  proof (cases "a = b")
    case True
    with \<open>less_string c a\<close> assms(2) show False by simp
  next
    case False
    with assms(1) have "less_string a b"
      using less_string_total by blast
    with \<open>less_string c a\<close> have "less_string c b"
      by (rule less_string_trans)
    with assms(2) show False by simp
  qed
qed

lemma not_after_total: "not_after sel cs x y \<or> not_after sel cs y x"
  using less_string_asym [of "key_of sel cs x" "key_of sel cs y"]
  by (auto simp add: not_after_def)

lemma not_after_trans:
  assumes "not_after sel cs x y" and "not_after sel cs y z"
  shows "not_after sel cs x z"
proof (cases "sort_class sel x < sort_class sel y \<or> sort_class sel y < sort_class sel z")
  case True
  with assms show ?thesis
    by (auto simp add: not_after_def)
next
  case False
  with assms have same: "sort_class sel x = sort_class sel y" "sort_class sel y = sort_class sel z"
    by (auto simp add: not_after_def)
  show ?thesis
  proof (cases "sort_class sel x = 0")
    case True
    with same assms have "\<not> less_string (key_of sel cs y) (key_of sel cs x)"
      and "\<not> less_string (key_of sel cs z) (key_of sel cs y)"
      by (auto simp add: not_after_def)
    then have "\<not> less_string (key_of sel cs z) (key_of sel cs x)"
      by (rule not_less_string_trans)
    with same show ?thesis
      by (simp add: not_after_def)
  next
    case False
    with same show ?thesis
      by (simp add: not_after_def)
  qed
qed

lemma compareFn_negative_iff:
  assumes "\<not> empty_key (sel p)" and "\<not> empty_key (sel y)"
  shows "compareFn sel cs p y < 0 \<longleftrightarrow> less_string (key_of sel cs p) (key_of sel cs y)"
proof -
  from assms(1) obtain kp where kp: "sel p = Val kp" "kp \<noteq> []"
    by (rule keyed_cases)
  from assms(2) obtain ky where ky: "sel y = Val ky" "ky \<noteq> []"
    by (rule keyed_cases)
  from kp ky show ?thesis
    by (simp add: compareFn_keys key_of_def less_string_irrefl)
qed

text \<open>
  The comparison that \<^verbatim>\<open>sort\<close> makes puts the pivot before an element exactly when the
  element is after the pivot in the order of classes and keys.
\<close>

lemma compareArrayElements_negative_iff:
  "compareArrayElements (compareFn sel cs) p y < 0 \<longleftrightarrow> \<not> not_after sel cs y p"
proof -
  consider "p = Undefined" | "p \<noteq> Undefined" "y = Undefined"
    | "p \<noteq> Undefined" "y \<noteq> Undefined" "empty_key (sel p)"
    | "p \<noteq> Undefined" "y \<noteq> Undefined" "\<not> empty_key (sel p)" "empty_key (sel y)"
    | "p \<noteq> Undefined" "y \<noteq> Undefined" "\<not> empty_key (sel p)" "\<not> empty_key (sel y)"
    by blast
  then show ?thesis
  proof cases
    case 1
    then show ?thesis
      by (simp add: compareArrayElements_def not_after_def sort_class_def)
  next
    case 2
    then show ?thesis
      by (simp add: compareArrayElements_def not_after_def sort_class_def)
  next
    case 3
    then show ?thesis
      by (simp add: compareArrayElements_def not_after_def sort_class_def compareFn_empty_left)
  next
    case 4
    then show ?thesis
      by (simp add: compareArrayElements_def not_after_def sort_class_def compareFn_empty_right)
  next
    case 5
    then show ?thesis
      by (simp add: compareArrayElements_def not_after_def sort_class_def
          compareFn_negative_iff)
  qed
qed

lemma set_insert_pivot: "set (insert_pivot c p ys) = insert p (set ys)"
  by (induction ys) auto

lemma mset_insert_pivot: "mset (insert_pivot c p ys) = add_mset p (mset ys)"
  by (induction ys) simp_all

lemma mset_foldl_insert_pivot:
  "mset (foldl (\<lambda>sorted pivot. insert_pivot c pivot sorted) acc xs) = mset acc + mset xs"
  by (induction xs arbitrary: acc) (simp_all add: mset_insert_pivot)

lemma mset_array_sort: "mset (array_sort c xs) = mset xs"
  by (simp add: array_sort_def mset_foldl_insert_pivot)

text \<open>
  Insertion keeps a list sorted for any total and transitive order \<open>le\<close> that the comparison
  decides: the pivot goes before \<open>y\<close> exactly when \<open>y\<close> is not before or level with it.
\<close>

lemma sorted_wrt_insert_pivot:
  assumes total: "\<And>x y. le x y \<or> le y x"
    and trans: "\<And>x y z. le x y \<Longrightarrow> le y z \<Longrightarrow> le x z"
    and decides: "\<And>y. (c p y < 0) = (\<not> le y p)"
    and "sorted_wrt le ys"
  shows "sorted_wrt le (insert_pivot c p ys)"
  using \<open>sorted_wrt le ys\<close>
proof (induction ys)
  case Nil
  then show ?case by simp
next
  case (Cons y ys)
  show ?case
  proof (cases "c p y < 0")
    case True
    with decides total have "le p y" by blast
    moreover from Cons.prems have "\<forall>z\<in>set ys. le y z" by simp
    ultimately have "\<forall>z\<in>set ys. le p z"
      using trans by blast
    with True \<open>le p y\<close> Cons.prems show ?thesis by simp
  next
    case False
    with decides have "le y p" by simp
    moreover from Cons.prems have "sorted_wrt le (insert_pivot c p ys)"
      by (simp add: Cons.IH)
    moreover from Cons.prems have "\<forall>z\<in>set ys. le y z" by simp
    ultimately show ?thesis
      using False by (simp add: set_insert_pivot)
  qed
qed

lemma sorted_wrt_foldl_insert_pivot:
  assumes "\<And>x y. le x y \<or> le y x"
    and "\<And>x y z. le x y \<Longrightarrow> le y z \<Longrightarrow> le x z"
    and "\<And>p y. (c p y < 0) = (\<not> le y p)"
    and "sorted_wrt le acc"
  shows "sorted_wrt le (foldl (\<lambda>sorted pivot. insert_pivot c pivot sorted) acc xs)"
  using \<open>sorted_wrt le acc\<close>
proof (induction xs arbitrary: acc)
  case Nil
  then show ?case by simp
next
  case (Cons x xs)
  have "sorted_wrt le (insert_pivot c x acc)"
    using assms(1) assms(2) assms(3) Cons.prems by (rule sorted_wrt_insert_pivot)
  then show ?case
    by (simp add: Cons.IH)
qed

lemma sorted_wrt_array_sort_compareFn:
  "sorted_wrt (not_after sel cs) (array_sort (compareFn sel cs) xs)"
  unfolding array_sort_def
proof (rule sorted_wrt_foldl_insert_pivot)
  show "not_after sel cs x y \<or> not_after sel cs y x" for x y
    by (rule not_after_total)
  show "not_after sel cs x z" if "not_after sel cs x y" and "not_after sel cs y z" for x y z
    using that by (rule not_after_trans)
  show "(compareArrayElements (compareFn sel cs) p y < 0) = (\<not> not_after sel cs y p)" for p y
    by (rule compareArrayElements_negative_iff)
  show "sorted_wrt (not_after sel cs) []"
    by simp
qed

text \<open>What the order says about two positions of a list sorted by it.\<close>

lemma not_after_positions:
  assumes "not_after sel cs x y"
  shows "(x = Undefined \<longrightarrow> y = Undefined)
     \<and> (empty_key (sel x) \<longrightarrow> y = Undefined \<or> empty_key (sel y))
     \<and> (\<forall>kx ky. y \<noteq> Undefined \<and> sel x = Val kx \<and> sel y = Val ky \<and> ky \<noteq> [] \<longrightarrow>
          \<not> less_string (key_as_compared cs ky) (key_as_compared cs kx))"
proof (intro conjI allI impI)
  show "y = Undefined" if "x = Undefined"
    using assms that by (auto simp add: not_after_def sort_class_def split: if_splits)
  show "y = Undefined \<or> empty_key (sel y)" if "empty_key (sel x)"
    using assms that by (auto simp add: not_after_def sort_class_def split: if_splits)
  show "\<not> less_string (key_as_compared cs ky) (key_as_compared cs kx)"
    if "y \<noteq> Undefined \<and> sel x = Val kx \<and> sel y = Val ky \<and> ky \<noteq> []" for kx ky
  proof -
    from that have "sort_class sel y = 0"
      by (simp add: sort_class_def empty_key_def)
    with assms have "sort_class sel x = 0"
      and "\<not> less_string (key_of sel cs y) (key_of sel cs x)"
      by (auto simp add: not_after_def)
    with that show ?thesis
      by (simp add: key_of_def)
  qed
qed

lemma sortByString_Val:
  "sortByString h (Val r) sel caseSensitive =
     Inr (h[r := array_sort (compareFn sel (case caseSensitive of None \<Rightarrow> False | Some b \<Rightarrow> b))
                    (h ! r)], Val r)"
  by (simp add: sortByString_def)

lemma sorted_last_empty_key:
  assumes sorted: "sorted_wrt (not_after sel cs) ys"
    and "Undefined \<notin> set ys" and "\<exists>x\<in>set ys. empty_key (sel x)"
  shows "empty_key (sel (last ys))"
proof -
  from assms(3) obtain i where i: "i < length ys" "empty_key (sel (ys ! i))"
    by (auto simp add: in_set_conv_nth)
  then have "ys \<noteq> []" by auto
  show ?thesis
  proof (cases "i = length ys - 1")
    case True
    with i \<open>ys \<noteq> []\<close> show ?thesis
      by (simp add: last_conv_nth)
  next
    case False
    with i have "i < length ys - 1" and "length ys - 1 < length ys"
      by simp_all
    with sorted have "not_after sel cs (ys ! i) (ys ! (length ys - 1))"
      by (simp add: sorted_wrt_nth_less)
    with i(2) have "ys ! (length ys - 1) = Undefined \<or> empty_key (sel (ys ! (length ys - 1)))"
      using not_after_positions by blast
    moreover from \<open>ys \<noteq> []\<close> assms(2) have "ys ! (length ys - 1) \<noteq> Undefined"
      by (metis last_conv_nth last_in_set)
    ultimately show ?thesis
      using \<open>ys \<noteq> []\<close> by (simp add: last_conv_nth)
  qed
qed

lemma sortByString_examples:
  "sortByString [[Val (''b'', 1), Val (''A'', 2)]] (Val 0) field_n None
     = Inr ([[Val (''A'', 2), Val (''b'', 1)]], Val 0)"
  "sortByString [[Val (''a'', 1), Val (''B'', 2)]] (Val 0) field_n None
     = Inr ([[Val (''a'', 1), Val (''B'', 2)]], Val 0)"
  "sortByString [[Val (''a'', 1), Val (''B'', 2)]] (Val 0) field_n (Some True)
     = Inr ([[Val (''B'', 2), Val (''a'', 1)]], Val 0)"
  "sortByString [[Val ('''', 1), Val (''b'', 2), Val (''A'', 3)]] (Val 0) field_n None
     = Inr ([[Val (''A'', 3), Val (''b'', 2), Val ('''', 1)]], Val 0)"
  by code_simp+

text \<open>
  An \<^verbatim>\<open>undefined\<close> element goes to the end of the sorted array whatever the selector would
  return for it. With the selector \<^verbatim>\<open>x => x ?? "unknown"\<close> the array \<^verbatim>\<open>[undefined, ""]\<close>
  sorts to \<^verbatim>\<open>["", undefined]\<close>: the element with the empty key is first, before the element
  whose key is \<^verbatim>\<open>"unknown"\<close>, and it is not last.
\<close>

theorem sortByString_undefined_element_counterexample:
  "sortByString [[Undefined, Val '''']] (Val 0) or_unknown None
     = Inr ([[Val '''', Undefined]], Val 0)
   \<and> empty_key (or_unknown (Val ''''))
   \<and> \<not> empty_key (or_unknown Undefined)"
  by code_simp

text \<open>
  C8, with \<^verbatim>\<open>undefined\<close> elements set apart. Without the third argument \<^verbatim>\<open>sortByString\<close> sorts as with
  \<^verbatim>\<open>caseSensitive = false\<close>. The sorted array is the given array reordered in place, and for
  any two positions of it, the first before the second: an \<^verbatim>\<open>undefined\<close> element is followed
  by \<^verbatim>\<open>undefined\<close> elements only; an element with an empty or absent key is followed only by
  such elements and \<^verbatim>\<open>undefined\<close> ones; and an element with a key that is not \<^verbatim>\<open>undefined\<close>
  has a key that is not smaller than the key before it, the keys being compared lowercased
  unless \<^verbatim>\<open>caseSensitive\<close> is true. So in an array with no \<^verbatim>\<open>undefined\<close> element and some
  empty key, an element with an empty key is last. The comparator returns 1 and -1 for an
  empty or absent key against a key, with either setting, and on two keys it returns 0, -1 or
  1 as the keys, lowercased unless \<^verbatim>\<open>caseSensitive\<close> is true, are equal, ascending or
  descending. Sorting \<^verbatim>\<open>[{n:"b"},{n:"A"}]\<close> by \<^verbatim>\<open>n\<close> without regard to case gives
  \<^verbatim>\<open>[{n:"A"},{n:"b"}]\<close>; \<^verbatim>\<open>[{n:"a"},{n:"B"}]\<close> stays as it is without regard to case and
  becomes \<^verbatim>\<open>[{n:"B"},{n:"a"}]\<close> with it; and an element with the key \<^verbatim>\<open>""\<close> goes last.
\<close>

theorem sortByString_sorted:
  "sortByString h array selector None = sortByString h array selector (Some False)
   \<and> (r < length h \<longrightarrow>
        (\<exists>sorted. sortByString h (Val r) selector (Some cs) = Inr (h[r := sorted], Val r)
           \<and> mset sorted = mset (h ! r)
           \<and> (\<forall>i j. i < j \<and> j < length sorted \<longrightarrow>
                (sorted ! i = Undefined \<longrightarrow> sorted ! j = Undefined)
                \<and> (empty_key (selector (sorted ! i)) \<longrightarrow>
                     sorted ! j = Undefined \<or> empty_key (selector (sorted ! j)))
                \<and> (\<forall>ki kj. sorted ! j \<noteq> Undefined \<and> selector (sorted ! i) = Val ki
                       \<and> selector (sorted ! j) = Val kj \<and> kj \<noteq> [] \<longrightarrow>
                     \<not> less_string (key_as_compared cs kj) (key_as_compared cs ki)))
           \<and> (Undefined \<notin> set (h ! r) \<and> (\<exists>x\<in>set (h ! r). empty_key (selector x)) \<longrightarrow>
                empty_key (selector (last sorted)))))
   \<and> (empty_key (selector a) \<and> \<not> empty_key (selector b) \<longrightarrow>
        compareFn selector cs a b = 1 \<and> compareFn selector cs b a = - 1)
   \<and> (\<forall>ka kb. selector a = Val ka \<and> selector b = Val kb \<and> ka \<noteq> [] \<and> kb \<noteq> [] \<longrightarrow>
        compareFn selector cs a b =
          (if key_as_compared cs ka = key_as_compared cs kb then 0
           else if less_string (key_as_compared cs ka) (key_as_compared cs kb) then - 1 else 1))
   \<and> sortByString [[Val (''b'', 1), Val (''A'', 2)]] (Val 0) field_n None
        = Inr ([[Val (''A'', 2), Val (''b'', 1)]], Val 0)
   \<and> sortByString [[Val (''a'', 1), Val (''B'', 2)]] (Val 0) field_n None
        = Inr ([[Val (''a'', 1), Val (''B'', 2)]], Val 0)
   \<and> sortByString [[Val (''a'', 1), Val (''B'', 2)]] (Val 0) field_n (Some True)
        = Inr ([[Val (''B'', 2), Val (''a'', 1)]], Val 0)
   \<and> sortByString [[Val ('''', 1), Val (''b'', 2), Val (''A'', 3)]] (Val 0) field_n None
        = Inr ([[Val (''A'', 3), Val (''b'', 2), Val ('''', 1)]], Val 0)"
proof -
  have default: "sortByString h array selector None = sortByString h array selector (Some False)"
    by (simp add: sortByString_def)
  have sorting: "\<exists>sorted. sortByString h (Val r) selector (Some cs) = Inr (h[r := sorted], Val r)
           \<and> mset sorted = mset (h ! r)
           \<and> (\<forall>i j. i < j \<and> j < length sorted \<longrightarrow>
                (sorted ! i = Undefined \<longrightarrow> sorted ! j = Undefined)
                \<and> (empty_key (selector (sorted ! i)) \<longrightarrow>
                     sorted ! j = Undefined \<or> empty_key (selector (sorted ! j)))
                \<and> (\<forall>ki kj. sorted ! j \<noteq> Undefined \<and> selector (sorted ! i) = Val ki
                       \<and> selector (sorted ! j) = Val kj \<and> kj \<noteq> [] \<longrightarrow>
                     \<not> less_string (key_as_compared cs kj) (key_as_compared cs ki)))
           \<and> (Undefined \<notin> set (h ! r) \<and> (\<exists>x\<in>set (h ! r). empty_key (selector x)) \<longrightarrow>
                empty_key (selector (last sorted)))"
  proof -
    define sorted where "sorted = array_sort (compareFn selector cs) (h ! r)"
    have result: "sortByString h (Val r) selector (Some cs) = Inr (h[r := sorted], Val r)"
      by (simp add: sortByString_Val sorted_def)
    have same: "mset sorted = mset (h ! r)"
      by (simp add: sorted_def mset_array_sort)
    have ordered: "sorted_wrt (not_after selector cs) sorted"
      unfolding sorted_def by (rule sorted_wrt_array_sort_compareFn)
    have positions: "(sorted ! i = Undefined \<longrightarrow> sorted ! j = Undefined)
        \<and> (empty_key (selector (sorted ! i)) \<longrightarrow>
             sorted ! j = Undefined \<or> empty_key (selector (sorted ! j)))
        \<and> (\<forall>ki kj. sorted ! j \<noteq> Undefined \<and> selector (sorted ! i) = Val ki
               \<and> selector (sorted ! j) = Val kj \<and> kj \<noteq> [] \<longrightarrow>
             \<not> less_string (key_as_compared cs kj) (key_as_compared cs ki))"
      if "i < j \<and> j < length sorted" for i j
    proof -
      from ordered that have "not_after selector cs (sorted ! i) (sorted ! j)"
        by (simp add: sorted_wrt_nth_less)
      then show ?thesis
        by (rule not_after_positions)
    qed
    have last_one: "empty_key (selector (last sorted))"
      if "Undefined \<notin> set (h ! r) \<and> (\<exists>x\<in>set (h ! r). empty_key (selector x))"
    proof -
      from same have "set sorted = set (h ! r)"
        by (rule mset_eq_setD)
      with that have "Undefined \<notin> set sorted" and "\<exists>x\<in>set sorted. empty_key (selector x)"
        by simp_all
      with ordered show ?thesis
        by (rule sorted_last_empty_key)
    qed
    from result same positions last_one show ?thesis
      by blast
  qed
  have sorting_if: "r < length h \<longrightarrow>
        (\<exists>sorted. sortByString h (Val r) selector (Some cs) = Inr (h[r := sorted], Val r)
           \<and> mset sorted = mset (h ! r)
           \<and> (\<forall>i j. i < j \<and> j < length sorted \<longrightarrow>
                (sorted ! i = Undefined \<longrightarrow> sorted ! j = Undefined)
                \<and> (empty_key (selector (sorted ! i)) \<longrightarrow>
                     sorted ! j = Undefined \<or> empty_key (selector (sorted ! j)))
                \<and> (\<forall>ki kj. sorted ! j \<noteq> Undefined \<and> selector (sorted ! i) = Val ki
                       \<and> selector (sorted ! j) = Val kj \<and> kj \<noteq> [] \<longrightarrow>
                     \<not> less_string (key_as_compared cs kj) (key_as_compared cs ki)))
           \<and> (Undefined \<notin> set (h ! r) \<and> (\<exists>x\<in>set (h ! r). empty_key (selector x)) \<longrightarrow>
                empty_key (selector (last sorted))))"
    using sorting by (rule impI)
  have empties: "empty_key (selector a) \<and> \<not> empty_key (selector b) \<longrightarrow>
        compareFn selector cs a b = 1 \<and> compareFn selector cs b a = - 1"
    by (simp add: compareFn_empty_left compareFn_empty_right)
  have keys: "\<forall>ka kb. selector a = Val ka \<and> selector b = Val kb \<and> ka \<noteq> [] \<and> kb \<noteq> [] \<longrightarrow>
        compareFn selector cs a b =
          (if key_as_compared cs ka = key_as_compared cs kb then 0
           else if less_string (key_as_compared cs ka) (key_as_compared cs kb) then - 1 else 1)"
    by (intro allI impI compareFn_keys) simp_all
  show ?thesis
    by (intro conjI) (rule default sorting_if empties keys sortByString_examples)+
qed

theorem sortByString_sorted_witness:
  "(\<exists>sorted. sortByString [[Val ('''', 1), Undefined, Val (''b'', 2), Null, Val (''A'', 3)]] (Val 0)
        field_n (Some False) = Inr ([sorted], Val 0)
      \<and> sorted = [Val (''A'', 3), Val (''b'', 2), Val ('''', 1), Null, Undefined]
      \<and> mset sorted = mset [Val ('''', 1), Undefined, Val (''b'', 2), Null, Val (''A'', 3)]
      \<and> sorted ! 4 = Undefined
      \<and> empty_key (field_n (sorted ! 3))
      \<and> \<not> less_string (key_as_compared False ''b'') (key_as_compared False ''A''))
   \<and> compareFn field_n False (Val ('''', 1)) (Val (''A'', 3)) = 1
   \<and> compareFn field_n False (Val (''A'', 3)) (Val ('''', 1)) = - 1
   \<and> compareFn field_n False (Val (''a'', 1)) (Val (''B'', 2)) = - 1
   \<and> compareFn field_n True (Val (''a'', 1)) (Val (''B'', 2)) = 1"
proof -
  let ?h = "[[Val ('''', 1), Undefined, Val (''b'', 2), Null, Val (''A'', 3)]]"
  note at_empty = sortByString_sorted [where h = "?h" and r = 0 and selector = field_n
      and cs = False and a = "Val ('''', 1)" and b = "Val (''A'', 3)" and array = "Val 0"]
  note keys_folded = sortByString_sorted [where h = "?h" and r = 0 and selector = field_n
      and cs = False and a = "Val (''a'', 1)" and b = "Val (''B'', 2)" and array = "Val 0"]
  note keys_as_given = sortByString_sorted [where h = "?h" and r = 0 and selector = field_n
      and cs = True and a = "Val (''a'', 1)" and b = "Val (''B'', 2)" and array = "Val 0"]
  from at_empty obtain sorted
    where result: "sortByString ?h (Val 0) field_n (Some False) = Inr ([sorted], Val 0)"
      and same: "mset sorted = mset (?h ! 0)"
      and positions: "\<And>i j. i < j \<and> j < length sorted \<Longrightarrow>
          (sorted ! i = Undefined \<longrightarrow> sorted ! j = Undefined)
          \<and> (empty_key (field_n (sorted ! i)) \<longrightarrow>
               sorted ! j = Undefined \<or> empty_key (field_n (sorted ! j)))
          \<and> (\<forall>ki kj. sorted ! j \<noteq> Undefined \<and> field_n (sorted ! i) = Val ki
                 \<and> field_n (sorted ! j) = Val kj \<and> kj \<noteq> [] \<longrightarrow>
               \<not> less_string (key_as_compared False kj) (key_as_compared False ki))"
    by auto
  have "sortByString ?h (Val 0) field_n (Some False)
      = Inr ([[Val (''A'', 3), Val (''b'', 2), Val ('''', 1), Null, Undefined]], Val 0)"
    by code_simp
  with result have value_of: "sorted = [Val (''A'', 3), Val (''b'', 2), Val ('''', 1), Null, Undefined]"
    by simp
  from positions [of 0 1] value_of
  have folded: "\<not> less_string (key_as_compared False ''b'') (key_as_compared False ''A'')"
    by simp
  from positions [of 2 3] value_of have absent: "empty_key (field_n (sorted ! 3))"
    by (simp add: empty_key_def)
  from at_empty have c1: "compareFn field_n False (Val ('''', 1)) (Val (''A'', 3)) = 1"
    and c2: "compareFn field_n False (Val (''A'', 3)) (Val ('''', 1)) = - 1"
    by (simp_all add: empty_key_def)
  have lower: "toLowerCase ''a'' = ''a''" "toLowerCase ''B'' = ''b''"
    by code_simp+
  from keys_folded lower have c3: "compareFn field_n False (Val (''a'', 1)) (Val (''B'', 2)) = - 1"
    by (simp add: key_as_compared_def)
  from keys_as_given have c4: "compareFn field_n True (Val (''a'', 1)) (Val (''B'', 2)) = 1"
    by (simp add: key_as_compared_def)
  from result same value_of folded absent c1 c2 c3 c4 show ?thesis
    by simp
qed

subsection \<open>No core operation throws\<close>

lemma equalsBy_returns: "\<exists>b. equalsBy eq sel a b' = Inr b"
proof -
  consider "is_nullish a" | "\<not> is_nullish a" "is_nullish b'"
    | c1 c2 where "a = Val c1" "b' = Val c2"
    using nullish_or_Val [of a] nullish_or_Val [of b'] by auto
  then show ?thesis
  proof cases
    case 1
    then show ?thesis by (auto simp add: equalsBy_absent_left)
  next
    case 2
    then show ?thesis by (auto simp add: equalsBy_absent_right)
  next
    case 3
    then show ?thesis by (auto simp add: equalsBy_Val)
  qed
qed

lemma length_js_returns: "\<exists>n. length_js s = Inr n \<and> (is_nullish s \<longrightarrow> n = - 1)"
  using nullish_or_Val [of s] by (auto simp add: length_js_nullish length_js_Val)

lemma removeElementAt_returns:
  "\<exists>res. removeElementAt h (Val r) index = Inr res
     \<and> (index < 0 \<or> index > int (length (h ! r)) \<longrightarrow> res = (h, Val r))"
proof (cases "index < 0 \<or> index > int (length (h ! r))")
  case True
  then show ?thesis
    by (simp add: removeElementAt_outside)
next
  case False
  then have "0 \<le> index" and "index \<le> int (length (h ! r))"
    by auto
  then show ?thesis
    using False by (simp add: removeElementAt_inside)
qed

lemma replaceElementAt_returns:
  "\<exists>res. replaceElementAt h (Val r) index v = Inr res
     \<and> (length (h ! r) = 0 \<or> index < 0 \<longrightarrow> res = (h, Val r))"
proof -
  consider "length (h ! r) = 0 \<or> index < 0"
    | "length (h ! r) = 1" "0 \<le> index"
    | "2 \<le> length (h ! r)" "index = int (length (h ! r)) - 1"
    | "2 \<le> length (h ! r)" "0 \<le> index" "index \<noteq> int (length (h ! r)) - 1"
    by linarith
  then show ?thesis
  proof cases
    case 1
    then show ?thesis by (simp add: replaceElementAt_unchanged)
  next
    case 2
    then show ?thesis by (simp add: replaceElementAt_single)
  next
    case 3
    then show ?thesis by (auto simp add: replaceElementAt_last)
  next
    case 4
    then show ?thesis by (auto simp add: replaceElementAt_other)
  qed
qed

text \<open>
  The index helpers take an array. Given \<^verbatim>\<open>undefined\<close> or \<^verbatim>\<open>null\<close> instead, which their
  signature excludes, reading \<^verbatim>\<open>source.length\<close> throws; \<^verbatim>\<open>removeElementAt\<close> reads it only
  when the index is not negative.
\<close>

lemma replaceElementAt_absent_source:
  "is_nullish source \<Longrightarrow> replaceElementAt h source index v = Inl TypeError"
  by (cases source) (simp_all add: replaceElementAt_def array_length_def or_else_def)

lemma removeElementAt_absent_source:
  "is_nullish source \<Longrightarrow>
   removeElementAt h source index = (if index < 0 then Inr (h, source) else Inl TypeError)"
  by (cases source) (simp_all add: removeElementAt_def array_length_def or_else_def)

text \<open>
  C9. On its documented inputs every core operation returns and none throws. \<^verbatim>\<open>length\<close>
  returns a number, \<open>-1\<close> for an absent input; \<^verbatim>\<open>isEmpty\<close>, \<^verbatim>\<open>isNotEmpty\<close> and \<^verbatim>\<open>hasValues\<close>
  return a boolean for any arguments, absent ones and empty ones among them; \<^verbatim>\<open>equalsBy\<close>
  returns a boolean for any two inputs, absent or not; \<^verbatim>\<open>removeElementAt\<close> and
  \<^verbatim>\<open>replaceElementAt\<close> return an array for any array and any integer index, the source
  itself where the index is outside the range or the source is empty.
\<close>

theorem core_operations_total:
  "(\<exists>n. length_js seq = Inr n \<and> (is_nullish seq \<longrightarrow> n = - 1))
   \<and> (\<exists>b. isEmpty collections = Inr b)
   \<and> (\<exists>b. isNotEmpty collections = Inr b)
   \<and> (\<exists>b. hasValues collections = Inr b)
   \<and> (\<exists>b. equalsBy eq selector seqA seqB = Inr b)
   \<and> (\<exists>res. removeElementAt h (Val r) index = Inr res
        \<and> (index < 0 \<or> index > int (length (h ! r)) \<longrightarrow> res = (h, Val r)))
   \<and> (\<exists>res. replaceElementAt h (Val r) index value = Inr res
        \<and> (length (h ! r) = 0 \<or> index < 0 \<longrightarrow> res = (h, Val r)))"
proof (intro conjI)
  show "\<exists>n. length_js seq = Inr n \<and> (is_nullish seq \<longrightarrow> n = - 1)"
    by (rule length_js_returns)
  show "\<exists>b. isEmpty collections = Inr b"
    by (simp add: isEmpty_eq)
  show "\<exists>b. isNotEmpty collections = Inr b"
    by (simp add: isNotEmpty_def isEmpty_eq)
  show "\<exists>b. hasValues collections = Inr b"
    by (simp add: hasValues_eq)
  show "\<exists>b. equalsBy eq selector seqA seqB = Inr b"
    by (rule equalsBy_returns)
  show "\<exists>res. removeElementAt h (Val r) index = Inr res
        \<and> (index < 0 \<or> index > int (length (h ! r)) \<longrightarrow> res = (h, Val r))"
    by (rule removeElementAt_returns)
  show "\<exists>res. replaceElementAt h (Val r) index value = Inr res
        \<and> (length (h ! r) = 0 \<or> index < 0 \<longrightarrow> res = (h, Val r))"
    by (rule replaceElementAt_returns)
qed

theorem core_operations_total_witness:
  "length_js (Undefined :: int collection nullable) = Inr (- 1)
   \<and> (\<exists>b. isEmpty [Null, Undefined, Val (PlainArray ([] :: int list))] = Inr b)
   \<and> (\<exists>b. isNotEmpty [Null, Undefined, Val (PlainArray ([] :: int list))] = Inr b)
   \<and> (\<exists>b. hasValues [Null, Undefined, Val (PlainArray ([] :: int list))] = Inr b)
   \<and> (\<exists>b. equalsBy (=) id (Null :: int collection nullable) (Val (ImmutableList [])) = Inr b)
   \<and> removeElementAt [[1, 2, 3 :: int]] (Val 0) 17 = Inr ([[1, 2, 3]], Val 0)
   \<and> replaceElementAt [[] :: int list] (Val 0) 17 5 = Inr ([[]], Val 0)"
  using core_operations_total [where seq = "Undefined :: int collection nullable"
      and collections = "[Null, Undefined, Val (PlainArray ([] :: int list))]"
      and eq = "(=)" and selector = id
      and seqA = "Null :: int collection nullable" and seqB = "Val (ImmutableList [])"
      and h = "[[1, 2, 3 :: int]]" and r = 0 and index = 17]
    core_operations_total [of "Undefined :: int collection nullable"
      "[Null, Undefined, Val (PlainArray ([] :: int list))]" "(=)" id
      "Null :: int collection nullable" "Val (ImmutableList [])" "[[] :: int list]" 0 17 5]
  by auto

end
